theory Spec2Isabelle
  imports Complex_Main
begin

section \<open>Python values used by the typing-practice program\<close>

text \<open>
  The program is a single Python module, \<^verbatim>\<open>main.py\<close>. Python strings are lists of
  characters; the characters modelled here are the code points below 256. Python's
  unbounded integers are \<^typ>\<open>int\<close>. Python floats (the clock readings of
  \<^verbatim>\<open>time.time()\<close>, the quotients of \<^verbatim>\<open>/\<close>) are modelled as exact rationals:
  the binary rounding of each float operation is not part of the model. The concrete
  inputs of the examples below lie away from the ties of \<^verbatim>\<open>round\<close>, where that
  rounding cannot change the result.
\<close>

subsection \<open>\<^verbatim>\<open>str.isspace\<close> and \<^verbatim>\<open>str.split()\<close>\<close>

text \<open>
  The whitespace characters of Python below code point 256: tab, line feed, vertical tab,
  form feed, carriage return, the four separators \<^verbatim>\<open>0x1c\<close> to \<^verbatim>\<open>0x1f\<close>, space,
  \<^verbatim>\<open>0x85\<close> and \<^verbatim>\<open>0xa0\<close>.
\<close>

definition isspace :: "char \<Rightarrow> bool" where
  "isspace c =
     (let n = (of_char c :: nat)
      in (9 \<le> n \<and> n \<le> 13) \<or> (28 \<le> n \<and> n \<le> 32) \<or> n = 133 \<or> n = 160)"

text \<open>
  \<^verbatim>\<open>s.split()\<close> with no argument: a scan from left to right that collects the current
  run of non-whitespace characters and emits it at the next whitespace character or at the
  end of the string. Runs of whitespace emit nothing.
\<close>

fun split_scan :: "string \<Rightarrow> string \<Rightarrow> string list" where
  "split_scan cur [] = (if cur = [] then [] else [cur])"
| "split_scan cur (c # cs) =
     (if isspace c
      then (if cur = [] then split_scan [] cs else cur # split_scan [] cs)
      else split_scan (cur @ [c]) cs)"

definition py_split :: "string \<Rightarrow> string list" where
  "py_split s = split_scan [] s"

subsection \<open>\<^verbatim>\<open>round(x, 2)\<close>\<close>

text \<open>
  Python rounds a float to the nearest multiple of \<open>1/100\<close> and resolves a tie towards the
  even last digit. \<^verbatim>\<open>round(0, 2)\<close> on the integer \<open>0\<close> is \<open>0\<close>, which this function gives
  as well.
\<close>

definition round_half_even :: "rat \<Rightarrow> int" where
  "round_half_even x =
     (let f = \<lfloor>x\<rfloor>; d = x - of_int f
      in if d < 1 / 2 then f
         else if 1 / 2 < d then f + 1
         else if even f then f else f + 1)"

definition py_round2 :: "rat \<Rightarrow> rat" where
  "py_round2 x = of_int (round_half_even (x * 100)) / 100"

section \<open>Scoring: \<^verbatim>\<open>calculate_wpm_and_accuracy\<close>\<close>

text \<open>
  The error loop of the source:
  \<^verbatim>\<open>
  errors = 0
  for i, char in enumerate(typed_text):
      if i >= len(reference_text):
          errors += len(typed_text) - len(reference_text)
          break
      if char != reference_text[i]:
          errors += 1
  \<close>
  The fourth argument is what is left of \<^verbatim>\<open>typed_text\<close> to enumerate, the third the
  index of its first character. The \<^verbatim>\<open>break\<close> is the branch without a recursive call.
  \<^verbatim>\<open>reference_text[i]\<close> is read only below \<^verbatim>\<open>len(reference_text)\<close>.
\<close>

fun errors_loop :: "'a list \<Rightarrow> 'a list \<Rightarrow> nat \<Rightarrow> 'a list \<Rightarrow> int \<Rightarrow> int" where
  "errors_loop typed_text reference_text i [] errors = errors"
| "errors_loop typed_text reference_text i (char # rest) errors =
     (if length reference_text \<le> i
      then errors + (int (length typed_text) - int (length reference_text))
      else errors_loop typed_text reference_text (i + 1) rest
             (if char \<noteq> reference_text ! i then errors + 1 else errors))"

text \<open>The loop followed by the count of the untyped remainder.\<close>

definition count_errors :: "'a list \<Rightarrow> 'a list \<Rightarrow> int" where
  "count_errors typed_text reference_text =
     (let errors = errors_loop typed_text reference_text 0 typed_text 0
      in if length typed_text < length reference_text
         then errors + (int (length reference_text) - int (length typed_text))
         else errors)"

definition wpm_of :: "string \<Rightarrow> rat \<Rightarrow> rat \<Rightarrow> rat" where
  "wpm_of reference_text start_time end_time =
     (let elapsed_seconds = end_time - start_time;
          word_count = length (py_split reference_text);
          time_in_minutes = elapsed_seconds / 60
      in if 0 < time_in_minutes \<and> 0 < word_count
         then of_nat word_count / time_in_minutes
         else 0)"

definition accuracy_of :: "string \<Rightarrow> string \<Rightarrow> rat" where
  "accuracy_of typed_text reference_text =
     (let errors = count_errors typed_text reference_text;
          total_chars = int (length reference_text);
          correct_chars = max 0 (total_chars - errors)
      in if total_chars \<noteq> 0
         then (of_int correct_chars / of_int total_chars) * 100
         else 0)"

definition calculate_wpm_and_accuracy :: "string \<Rightarrow> string \<Rightarrow> rat \<Rightarrow> rat \<Rightarrow> rat \<times> rat" where
  "calculate_wpm_and_accuracy typed_text reference_text start_time end_time =
     (py_round2 (wpm_of reference_text start_time end_time),
      py_round2 (accuracy_of typed_text reference_text))"

subsection \<open>The error count and the word count, as the specification words them\<close>

text \<open>
  The number of indices within the bounds of both strings at which the typed character
  differs from the reference character.
\<close>

definition mismatches :: "'a list \<Rightarrow> 'a list \<Rightarrow> nat" where
  "mismatches typed reference =
     length (filter (\<lambda>i. typed ! i \<noteq> reference ! i)
               [0..<min (length typed) (length reference)])"

text \<open>
  The mismatches, plus the surplus of \<open>typed\<close> when it is longer, plus the untyped tail
  when it is shorter.
\<close>

definition spec_errors :: "'a list \<Rightarrow> 'a list \<Rightarrow> int" where
  "spec_errors typed reference =
     int (mismatches typed reference)
     + (if length reference < length typed
        then int (length typed) - int (length reference) else 0)
     + (if length typed < length reference
        then int (length reference) - int (length typed) else 0)"



section \<open>The lesson file and the progress file\<close>

text \<open>
  \<^verbatim>\<open>json.load\<close> either raises \<^verbatim>\<open>json.JSONDecodeError\<close> on text that is not JSON
  or returns the parsed document. The documents of this program are objects whose
  members hold lists of entries (\<^verbatim>\<open>{"lessons": [...]}\<close>, \<^verbatim>\<open>{"attempts": [...]}\<close>), so a
  parsed document is a map from member names to lists. A file that does not exist is
  \<open>None\<close>. The exceptions that the module does not catch reach the caller as \<open>Inl\<close>.
\<close>

datatype error = JSONDecodeError | KeyError | TypeError

datatype 'a json_file = Malformed | Document "string \<rightharpoonup> 'a list"

record lesson =
  lesson_id :: int
  title :: string
  content :: string

record progress_record =
  user :: string
  lessonId :: int
  lessonTitle :: string
  timestamp :: string
  wpm :: rat
  accuracy :: rat

text \<open>
  \<^verbatim>\<open>load_lessons\<close>: only \<^verbatim>\<open>FileNotFoundError\<close> is caught, and gives the empty list;
  \<^verbatim>\<open>data.get('lessons', [])\<close> gives the empty list when the member is absent.
\<close>

definition load_lessons :: "lesson json_file option \<Rightarrow> error + lesson list" where
  "load_lessons LESSONS_FILE =
     (case LESSONS_FILE of
        None \<Rightarrow> Inr []
      | Some Malformed \<Rightarrow> Inl JSONDecodeError
      | Some (Document data) \<Rightarrow>
          Inr (case data ''lessons'' of None \<Rightarrow> [] | Some ls \<Rightarrow> ls))"

text \<open>
  The first block of \<^verbatim>\<open>save_progress\<close>: read the stored document, or start from
  \<^verbatim>\<open>{"attempts": []}\<close> when the file does not exist.
\<close>

definition read_progress ::
  "progress_record json_file option \<Rightarrow> error + (string \<rightharpoonup> progress_record list)" where
  "read_progress PROGRESS_FILE =
     (case PROGRESS_FILE of
        None \<Rightarrow> Inr [''attempts'' \<mapsto> []]
      | Some Malformed \<Rightarrow> Inl JSONDecodeError
      | Some (Document data) \<Rightarrow> Inr data)"

text \<open>
  \<^verbatim>\<open>save_progress\<close>: \<^verbatim>\<open>data["attempts"]\<close> raises \<^verbatim>\<open>KeyError\<close> when the document has
  no such member; otherwise the record is appended and the whole document is written
  back. The result is the new content of the file; when an exception is raised the file
  has not been opened for writing and keeps its content.
\<close>

definition save_progress ::
  "progress_record \<Rightarrow> progress_record json_file option
     \<Rightarrow> error + progress_record json_file option" where
  "save_progress progress_rec PROGRESS_FILE =
     (case read_progress PROGRESS_FILE of
        Inl e \<Rightarrow> Inl e
      | Inr data \<Rightarrow>
          (case data ''attempts'' of
             None \<Rightarrow> Inl KeyError
           | Some attempts \<Rightarrow>
               Inr (Some (Document (data(''attempts'' \<mapsto> attempts @ [progress_rec]))))))"

text \<open>Successive calls of \<^verbatim>\<open>save_progress\<close>; an exception ends the sequence.\<close>

fun save_all ::
  "progress_record list \<Rightarrow> progress_record json_file option
     \<Rightarrow> error + progress_record json_file option" where
  "save_all [] PROGRESS_FILE = Inr PROGRESS_FILE"
| "save_all (r # rs) PROGRESS_FILE =
     (case save_progress r PROGRESS_FILE of
        Inl e \<Rightarrow> Inl e
      | Inr written \<Rightarrow> save_all rs written)"

section \<open>The application object \<^verbatim>\<open>TypingApp\<close>\<close>

text \<open>
  The fields of the object that the handlers read and write, the content of the widgets
  they use, the progress file on disk, and the windows they open. \<open>typed_text\<close> is the
  content of the text widget without the newline that Tk keeps at its end; \<open>tags\<close> holds
  the highlighting tag of each character of the widget, in order, and is empty when no
  character is tagged. Each result window has a timer that calls
  \<^verbatim>\<open>close_results_and_next\<close>.
\<close>

datatype tag = Correct | Incorrect

record app =
  lessons :: "lesson list"
  current_lesson_index :: int
  selected_lesson :: "lesson option"
  start_time :: "rat option"
  user_started_typing :: bool
  typed_text :: string
  tags :: "tag list"
  username_entry :: string
  lesson_text_label :: string
  progress_file :: "progress_record json_file option"
  result_windows :: "(rat \<times> rat \<times> rat) list"
  finished_windows :: nat

text \<open>
  \<^verbatim>\<open>load_lesson_by_index\<close>: an index out of range returns at once and changes nothing;
  otherwise the lesson is selected and the typing state is reset.
\<close>

definition load_lesson_by_index :: "int \<Rightarrow> app \<Rightarrow> app" where
  "load_lesson_by_index index a =
     (if index < 0 \<or> int (length (lessons a)) \<le> index then a
      else a\<lparr>current_lesson_index := index,
             selected_lesson := Some (lessons a ! nat index),
             lesson_text_label := content (lessons a ! nat index),
             typed_text := [],
             user_started_typing := False,
             start_time := None,
             tags := []\<rparr>)"

text \<open>
  \<^verbatim>\<open>__init__\<close>: the lessons are loaded, an empty list is replaced by the placeholder
  lesson, and the first lesson is loaded. An exception of \<^verbatim>\<open>load_lessons\<close> is not
  caught.
\<close>

definition placeholder :: lesson where
  "placeholder =
     \<lparr>lesson_id = 1, title = ''No Lessons Found'', content = ''Please check lessons.json''\<rparr>"

definition TypingApp_init ::
  "lesson json_file option \<Rightarrow> progress_record json_file option \<Rightarrow> error + app" where
  "TypingApp_init LESSONS_FILE PROGRESS_FILE =
     (case load_lessons LESSONS_FILE of
        Inl e \<Rightarrow> Inl e
      | Inr loaded \<Rightarrow>
          Inr (load_lesson_by_index 0
                 \<lparr>lessons = (if loaded = [] then [placeholder] else loaded),
                  current_lesson_index = 0,
                  selected_lesson = None,
                  start_time = None,
                  user_started_typing = False,
                  typed_text = [],
                  tags = [],
                  username_entry = [],
                  lesson_text_label = [],
                  progress_file = PROGRESS_FILE,
                  result_windows = [],
                  finished_windows = 0\<rparr>))"

text \<open>\<^verbatim>\<open>on_key_press\<close>: the first key press starts the timer; \<open>now\<close> is \<^verbatim>\<open>time.time()\<close>.\<close>

definition on_key_press :: "rat \<Rightarrow> app \<Rightarrow> app" where
  "on_key_press now a =
     (if \<not> user_started_typing a
      then a\<lparr>user_started_typing := True, start_time := Some now\<rparr>
      else a)"

text \<open>
  \<^verbatim>\<open>on_text_changed\<close>: the old tags are removed, then every index of the typed text
  gets one tag.
\<close>

definition live_grading :: "'a list \<Rightarrow> 'a list \<Rightarrow> tag list" where
  "live_grading typed reference =
     map (\<lambda>i. if i < length reference \<and> typed ! i = reference ! i then Correct else Incorrect)
       [0..<length typed]"

definition on_text_changed :: "app \<Rightarrow> app" where
  "on_text_changed a =
     (case selected_lesson a of
        None \<Rightarrow> a
      | Some l \<Rightarrow> a\<lparr>tags := live_grading (typed_text a) (content l)\<rparr>)"

text \<open>
  \<^verbatim>\<open>s.rstrip("\n")\<close> removes the line feeds at the end of \<open>s\<close>, and \<^verbatim>\<open>s.strip()\<close> the
  whitespace at both ends.
\<close>

definition rstrip_newlines :: "string \<Rightarrow> string" where
  "rstrip_newlines s = rev (dropWhile (\<lambda>c. c = CHR 0x0A) (rev s))"

definition strip :: "string \<Rightarrow> string" where
  "strip s = rev (dropWhile isspace (rev (dropWhile isspace s)))"

text \<open>
  \<^verbatim>\<open>show_results\<close> opens a window with the elapsed time rounded to two places, the WPM
  and the accuracy, and schedules its timer.
\<close>

definition show_results :: "rat \<Rightarrow> rat \<Rightarrow> rat \<Rightarrow> app \<Rightarrow> app" where
  "show_results w acc elapsed a =
     a\<lparr>result_windows := result_windows a @ [(py_round2 elapsed, w, acc)]\<rparr>"

text \<open>
  \<^verbatim>\<open>on_submit\<close>: \<open>now\<close> is \<^verbatim>\<open>time.time()\<close> and \<open>stamp\<close> is
  \<^verbatim>\<open>datetime.now().isoformat()\<close>. The text is read with the final newline of the
  widget and stripped of its trailing line feeds. The two guards return without effect.
  Nothing in the handler changes \<open>user_started_typing\<close> or \<open>start_time\<close>.
\<close>

definition on_submit :: "rat \<Rightarrow> string \<Rightarrow> app \<Rightarrow> error + app" where
  "on_submit now stamp a =
     (case selected_lesson a of
        None \<Rightarrow> Inr a
      | Some l \<Rightarrow>
          if \<not> user_started_typing a then Inr a
          else
            (case start_time a of
               None \<Rightarrow> Inl TypeError
             | Some started \<Rightarrow>
                 (let end_time = now;
                      typed = rstrip_newlines (typed_text a @ [CHR 0x0A]);
                      (w, acc) = calculate_wpm_and_accuracy typed (content l) started end_time;
                      username = (if strip (username_entry a) = [] then ''Anonymous''
                                  else strip (username_entry a));
                      progress_rec = \<lparr>user = username,
                                      lessonId = lesson_id l,
                                      lessonTitle = title l,
                                      timestamp = stamp,
                                      wpm = w,
                                      accuracy = acc\<rparr>
                  in case save_progress progress_rec (progress_file a) of
                       Inl e \<Rightarrow> Inl e
                     | Inr written \<Rightarrow>
                         Inr (show_results w acc (end_time - started)
                                (a\<lparr>progress_file := written\<rparr>)))))"

text \<open>
  \<^verbatim>\<open>close_results_and_next\<close>: the oldest result window is destroyed; then either the
  next lesson is loaded or the window "All Lessons Complete" is opened.
\<close>

definition close_results_and_next :: "app \<Rightarrow> app" where
  "close_results_and_next a =
     (let closed = a\<lparr>result_windows := drop 1 (result_windows a)\<rparr>;
          next_index = current_lesson_index closed + 1
      in if next_index < int (length (lessons closed))
         then load_lesson_by_index next_index closed
         else closed\<lparr>finished_windows := finished_windows closed + 1\<rparr>)"

subsection \<open>Sequences of events and states used in the examples\<close>

text \<open>The submit command twice in a row, with no event between the two.\<close>

definition submit_twice :: "rat \<Rightarrow> string \<Rightarrow> rat \<Rightarrow> string \<Rightarrow> app \<Rightarrow> error + app" where
  "submit_twice now1 stamp1 now2 stamp2 a =
     (case on_submit now1 stamp1 a of
        Inl e \<Rightarrow> Inl e
      | Inr submitted \<Rightarrow> on_submit now2 stamp2 submitted)"

text \<open>
  The records of the progress log as \<^verbatim>\<open>save_progress\<close> would read them; a log that
  cannot be read has none.
\<close>

definition attempts_logged :: "app \<Rightarrow> progress_record list" where
  "attempts_logged a =
     (case read_progress (progress_file a) of
        Inl e \<Rightarrow> []
      | Inr data \<Rightarrow> (case data ''attempts'' of None \<Rightarrow> [] | Some attempts \<Rightarrow> attempts))"

text \<open>
  The record that \<^verbatim>\<open>on_submit\<close> builds for the lesson \<open>l\<close> in a session started at
  \<open>started\<close>.
\<close>

definition submitted_record :: "rat \<Rightarrow> string \<Rightarrow> app \<Rightarrow> lesson \<Rightarrow> rat \<Rightarrow> progress_record" where
  "submitted_record now stamp a l started =
     \<lparr>user = (if strip (username_entry a) = [] then ''Anonymous''
              else strip (username_entry a)),
      lessonId = lesson_id l,
      lessonTitle = title l,
      timestamp = stamp,
      wpm = fst (calculate_wpm_and_accuracy
                   (rstrip_newlines (typed_text a @ [CHR 0x0A])) (content l) started now),
      accuracy = snd (calculate_wpm_and_accuracy
                   (rstrip_newlines (typed_text a @ [CHR 0x0A])) (content l) started now)\<rparr>"

text \<open>The application after \<^verbatim>\<open>__init__\<close> when neither file exists.\<close>

definition startup_app :: app where
  "startup_app =
     \<lparr>lessons = [placeholder],
      current_lesson_index = 0,
      selected_lesson = Some placeholder,
      start_time = None,
      user_started_typing = False,
      typed_text = [],
      tags = [],
      username_entry = [],
      lesson_text_label = ''Please check lessons.json'',
      progress_file = None,
      result_windows = [],
      finished_windows = 0\<rparr>"

section \<open>Properties of the scoring function\<close>

subsection \<open>The error loop\<close>

text \<open>
  The loop invariant: at index \<open>i\<close>, with \<open>pre\<close> already enumerated, the loop adds the
  mismatches from \<open>i\<close> on and, once, the surplus of the typed text.
\<close>

lemma errors_loop_general:
  "length pre = i \<Longrightarrow> typed = pre @ cs \<Longrightarrow> i \<le> length reference \<Longrightarrow>
   errors_loop typed reference i cs e =
     e + int (length (filter (\<lambda>j. typed ! j \<noteq> reference ! j) [i..<min (length typed) (length reference)]))
       + (if length reference < length typed then int (length typed) - int (length reference) else 0)"
proof (induction cs arbitrary: i e pre)
  case Nil
  then show ?case by simp
next
  case (Cons c rest)
  show ?case
  proof (cases "length reference \<le> i")
    case True
    with Cons.prems show ?thesis by simp
  next
    case False
    then have lt: "i < length reference" by simp
    have ti: "typed ! i = c" using Cons.prems by (simp add: nth_append)
    have lt2: "i < min (length typed) (length reference)" using lt Cons.prems by simp
    have step: "errors_loop typed reference (i + 1) rest (if c \<noteq> reference ! i then e + 1 else e) =
       (if c \<noteq> reference ! i then e + 1 else e)
       + int (length (filter (\<lambda>j. typed ! j \<noteq> reference ! j) [i + 1..<min (length typed) (length reference)]))
       + (if length reference < length typed then int (length typed) - int (length reference) else 0)"
      by (rule Cons.IH [of "pre @ [c]"]) (use Cons.prems lt in auto)
    have "errors_loop typed reference i (c # rest) e =
          errors_loop typed reference (i + 1) rest (if c \<noteq> reference ! i then e + 1 else e)"
      using False by simp
    also note step
    finally show ?thesis
      using ti by (simp add: upt_conv_Cons [OF lt2])
  qed
qed

lemma errors_loop_eq:
  "errors_loop typed reference 0 typed 0 =
     int (mismatches typed reference)
     + (if length reference < length typed then int (length typed) - int (length reference) else 0)"
  using errors_loop_general [of "[]" 0 typed typed reference 0] by (simp add: mismatches_def)

lemma count_errors_spec: "count_errors typed reference = spec_errors typed reference"
  by (simp add: count_errors_def spec_errors_def errors_loop_eq Let_def)



lemma mismatches_zip:
  "mismatches typed reference = length (filter (\<lambda>(a, b). a \<noteq> b) (zip typed reference))"
proof -
  have "zip typed reference = map (\<lambda>i. (typed ! i, reference ! i)) [0..<min (length typed) (length reference)]"
    by (rule nth_equalityI) auto
  then show ?thesis
    by (simp add: mismatches_def filter_map o_def)
qed

lemma mismatches_same: "mismatches xs xs = 0"
  by (simp add: mismatches_def)

lemma mismatches_snoc:
  "mismatches (xs @ [a]) (xs @ [b]) = (if a \<noteq> b then 1 else 0)"
  using mismatches_same [of xs] by (simp add: mismatches_zip)

lemma mismatches_zero_iff:
  "mismatches typed reference = 0 \<longleftrightarrow>
     (\<forall>i < min (length typed) (length reference). typed ! i = reference ! i)"
  by (auto simp: mismatches_def filter_empty_conv)

lemma spec_errors_nonneg: "0 \<le> spec_errors typed reference"
  by (simp add: spec_errors_def)

lemma spec_errors_zero_iff: "spec_errors typed reference = 0 \<longleftrightarrow> typed = reference"
proof
  assume z: "spec_errors typed reference = 0"
  then have len: "length typed = length reference"
    by (auto simp: spec_errors_def split: if_splits)
  from z have "mismatches typed reference = 0"
    by (auto simp: spec_errors_def split: if_splits)
  then have "\<forall>i < length typed. typed ! i = reference ! i"
    using len by (simp add: mismatches_zero_iff)
  with len show "typed = reference" by (simp add: nth_equalityI)
next
  assume "typed = reference"
  then show "spec_errors typed reference = 0"
    by (simp add: spec_errors_def mismatches_same)
qed

lemma round_half_even_le:
  assumes "y < of_int k + 1 / 2"
  shows "round_half_even y \<le> k"
proof -
  have fk: "\<lfloor>y\<rfloor> \<le> k"
  proof -
    have "y < of_int (k + 1)" using assms by simp
    then have "\<lfloor>y\<rfloor> < k + 1" by (simp only: floor_less_iff)
    then show ?thesis by simp
  qed
  show ?thesis
  proof (cases "\<lfloor>y\<rfloor> = k")
    case True
    then have "y - of_int \<lfloor>y\<rfloor> < 1 / 2" using assms by simp
    then show ?thesis using True by (simp add: round_half_even_def Let_def)
  next
    case False
    then have "\<lfloor>y\<rfloor> + 1 \<le> k" using fk by simp
    then show ?thesis by (auto simp: round_half_even_def Let_def)
  qed
qed

lemma round_half_even_of_int: "round_half_even (of_int k) = k"
  by (simp add: round_half_even_def)


lemma py_round2_100: "py_round2 100 = 100"
  using round_half_even_of_int [of 10000] by (simp add: py_round2_def)

lemma accuracy_of_spec:
  "accuracy_of typed reference =
     (if reference = [] then 0
      else of_int (max 0 (int (length reference) - spec_errors typed reference))
             / of_int (int (length reference)) * 100)"
  by (simp add: accuracy_of_def count_errors_spec Let_def)

lemma accuracy_below:
  assumes ne: "typed \<noteq> reference" and n0: "reference \<noteq> []" and small: "length reference < 20000"
  shows "accuracy_of typed reference * 100 < 9999 + 1 / 2"
proof -
  define n :: int where "n = int (length reference)"
  define c :: int where "c = max 0 (n - spec_errors typed reference)"
  have npos: "0 < n" using n0 by (simp add: n_def)
  have "spec_errors typed reference \<noteq> 0" using ne by (simp add: spec_errors_zero_iff)
  then have "1 \<le> spec_errors typed reference"
    using spec_errors_nonneg [of typed reference] by linarith
  then have "c \<le> n - 1" using npos by (simp add: c_def)
  moreover have "n < 20000" using small by (simp add: n_def)
  ultimately have "c * 20000 < 19999 * n" by linarith
  then have "(of_int (c * 20000) :: rat) < of_int (19999 * n)" by (simp only: of_int_less_iff)
  then have "(of_int c :: rat) * 20000 < 19999 * of_int n" by simp
  moreover have "(0::rat) < of_int n" using npos by simp
  ultimately have "(of_int c :: rat) / of_int n < 19999 / 20000"
    by (simp add: field_simps)
  then have "(of_int c :: rat) / of_int n * 100 * 100 < 9999 + 1 / 2" by linarith
  moreover have "accuracy_of typed reference = of_int c / of_int n * 100"
    using n0 by (simp add: accuracy_of_spec c_def n_def)
  ultimately show ?thesis by (simp only:)
qed

lemma py_round2_100_only:
  assumes "typed \<noteq> reference" and "reference \<noteq> []" and "length reference < 20000"
  shows "py_round2 (accuracy_of typed reference) \<noteq> 100"
proof -
  have "round_half_even (accuracy_of typed reference * 100) \<le> 9999"
    using round_half_even_le [of "accuracy_of typed reference * 100" 9999] accuracy_below [OF assms]
    by simp
  then have "(of_int (round_half_even (accuracy_of typed reference * 100)) :: rat) \<le> 9999"
    by (metis of_int_le_iff of_int_numeral)
  then show ?thesis by (simp add: py_round2_def)
qed

lemma accuracy_same:
  "reference \<noteq> [] \<Longrightarrow> accuracy_of reference reference = 100"
  using spec_errors_zero_iff [of reference reference] by (simp add: accuracy_of_spec)

subsection \<open>Rounded values used below\<close>



lemma py_round2_near_100: "py_round2 (39999 / 40000 * 100) = 100"
  by code_simp

subsection \<open>The accuracy\<close>





text \<open>
  Claim C10, as the code has it. The accuracy is rounded to two places, so a long
  reference with few errors also scores \<open>100\<close>: a reference of 40000 characters typed with
  one wrong character has the unrounded accuracy \<open>99.9975\<close>.
\<close>

theorem accuracy_100_unequal_counterexample:
  "snd (calculate_wpm_and_accuracy (replicate 39999 CHR ''a'' @ ''b'') (replicate 40000 CHR ''a'') 0 60) = 100
   \<and> replicate 39999 CHR ''a'' @ ''b'' \<noteq> replicate 40000 CHR ''a''
   \<and> replicate 40000 CHR ''a'' \<noteq> []"
proof -
  have rep: "replicate 40000 CHR ''a'' = replicate 39999 CHR ''a'' @ ''a''"
  proof -
    have "(40000::nat) = Suc 39999" by simp
    then show ?thesis by (simp only: replicate_Suc replicate_append_same)
  qed
  have "spec_errors (replicate 39999 CHR ''a'' @ ''b'') (replicate 39999 CHR ''a'' @ ''a'') = 1"
    by (simp add: spec_errors_def mismatches_snoc)
  then have "accuracy_of (replicate 39999 CHR ''a'' @ ''b'') (replicate 39999 CHR ''a'' @ ''a'')
               = 39999 / 40000 * 100"
    by (simp add: accuracy_of_spec)
  then have "py_round2 (accuracy_of (replicate 39999 CHR ''a'' @ ''b'') (replicate 39999 CHR ''a'' @ ''a'')) = 100"
    by (simp only: py_round2_near_100)
  then show ?thesis
    unfolding rep by (simp add: calculate_wpm_and_accuracy_def)
qed

text \<open>
  Claim C10, amended. For every typed string and every non-empty reference of fewer than
  20000 characters, the returned accuracy is \<open>100\<close> exactly when the typed string is
  character for character equal to the reference.
\<close>

theorem accuracy_100_iff_equal:
  assumes "reference \<noteq> []" and "length reference < 20000"
  shows "snd (calculate_wpm_and_accuracy typed reference started ended) = 100
           \<longleftrightarrow> typed = reference"
proof
  assume "snd (calculate_wpm_and_accuracy typed reference started ended) = 100"
  then have "py_round2 (accuracy_of typed reference) = 100"
    by (simp add: calculate_wpm_and_accuracy_def)
  then show "typed = reference"
    using py_round2_100_only [OF _ assms, of typed] by blast
next
  assume "typed = reference"
  then show "snd (calculate_wpm_and_accuracy typed reference started ended) = 100"
    using assms(1) by (simp add: calculate_wpm_and_accuracy_def accuracy_same py_round2_100)
qed

theorem accuracy_100_iff_equal_witness:
  "''abd'' \<noteq> [] \<and> length ''abd'' < 20000
   \<and> snd (calculate_wpm_and_accuracy ''abd'' ''abd'' 0 60) = 100
   \<and> snd (calculate_wpm_and_accuracy ''abc'' ''abd'' 0 60) \<noteq> 100"
  using accuracy_100_iff_equal [of "''abd''" "''abd''" 0 60]
        accuracy_100_iff_equal [of "''abd''" "''abc''" 0 60]
  by simp

subsection \<open>The word count and the words per minute\<close>










section \<open>Properties of the application\<close>

subsection \<open>Start-up\<close>

lemma startup_app_init: "TypingApp_init None None = Inr startup_app"
  by (simp add: TypingApp_init_def load_lessons_def load_lesson_by_index_def startup_app_def placeholder_def)

subsection \<open>Live grading\<close>

lemma live_grading_length: "length (live_grading typed reference) = length typed"
  by (simp add: live_grading_def)

lemma live_grading_nth:
  "i < length typed \<Longrightarrow>
   live_grading typed reference ! i =
     (if i < length reference \<and> typed ! i = reference ! i then Correct else Incorrect)"
  by (simp add: live_grading_def)

lemma live_grading_prefix:
  "live_grading typed (typed @ rest) = replicate (length typed) Correct"
  by (rule nth_equalityI) (simp_all add: live_grading_def nth_append)

text \<open>
  Claim C3, as the code has it. The handler tags the characters of the typed text only, so
  a typed text shorter than the reference gets fewer tags than the longer of the two
  lengths, and no position is marked as missing. There are two tags: a typed character
  past the end of the reference and a typed character that differs from the reference
  both get \<open>Incorrect\<close>.
\<close>

theorem live_grading_counterexample:
  "live_grading ''a'' ''ab'' = [Correct]
   \<and> length (live_grading ''a'' ''ab'') \<noteq> max (length ''a'') (length ''ab'')
   \<and> live_grading ''ab'' ''a'' = [Correct, Incorrect]
   \<and> live_grading ''b'' ''a'' = [Incorrect]"
  by (simp add: live_grading_def upt_conv_Cons)

text \<open>
  Claim C3, amended. For all typed and reference strings the highlighting holds exactly
  one tag for each index below the length of the typed text: \<open>Correct\<close> when the index
  is within the reference and the characters are equal, \<open>Incorrect\<close> when it is within
  the reference and the characters differ, and \<open>Incorrect\<close> as well when it is beyond the
  reference. The indices from the length of the typed text up to the length of the
  reference get no tag. When the typed text is a prefix of the reference, of length \<open>k\<close>,
  the tags are \<open>k\<close> times \<open>Correct\<close>. The handler stores these tags when a lesson is
  selected.
\<close>

theorem live_grading_tags:
  "length (live_grading typed reference) = length typed
   \<and> (\<forall>i < length typed.
         (i < length reference \<and> typed ! i = reference ! i
            \<longrightarrow> live_grading typed reference ! i = Correct)
       \<and> (i < length reference \<and> typed ! i \<noteq> reference ! i
            \<longrightarrow> live_grading typed reference ! i = Incorrect)
       \<and> (length reference \<le> i \<longrightarrow> live_grading typed reference ! i = Incorrect))
   \<and> (reference = typed @ rest \<longrightarrow>
         live_grading typed reference = replicate (length typed) Correct)
   \<and> (selected_lesson a = Some l \<longrightarrow>
         tags (on_text_changed a) = live_grading (typed_text a) (content l))"
  by (auto simp: live_grading_length live_grading_nth live_grading_prefix on_text_changed_def)

theorem live_grading_tags_witness:
  "live_grading ''ab'' ''abc'' = [Correct, Correct]
   \<and> live_grading ''xbcd'' ''abc'' ! 0 = Incorrect
   \<and> live_grading ''xbcd'' ''abc'' ! 1 = Correct
   \<and> live_grading ''xbcd'' ''abc'' ! 3 = Incorrect
   \<and> length (live_grading ''xbcd'' ''abc'') = 4
   \<and> tags (on_text_changed (startup_app\<lparr>typed_text := ''Pl''\<rparr>)) = [Correct, Correct]"
proof -
  note a = live_grading_tags [of "''ab''" "''abc''" "''c''" "startup_app\<lparr>typed_text := ''Pl''\<rparr>" placeholder]
  note b = live_grading_tags [of "''xbcd''" "''abc''" "[]" startup_app placeholder]
  have "live_grading ''ab'' ''abc'' = [Correct, Correct]"
    using a by simp
  moreover have "live_grading ''xbcd'' ''abc'' ! 0 = Incorrect"
    "live_grading ''xbcd'' ''abc'' ! 1 = Correct"
    "live_grading ''xbcd'' ''abc'' ! 3 = Incorrect"
    "length (live_grading ''xbcd'' ''abc'') = 4"
    using b by simp_all
  moreover have "tags (on_text_changed (startup_app\<lparr>typed_text := ''Pl''\<rparr>)) = live_grading ''Pl'' ''Please check lessons.json''"
    using a by (simp add: startup_app_def placeholder_def)
  then have "tags (on_text_changed (startup_app\<lparr>typed_text := ''Pl''\<rparr>)) = [Correct, Correct]"
    by (simp add: live_grading_def upt_conv_Cons)
  ultimately show ?thesis by simp
qed

subsection \<open>Loading a lesson by its index\<close>

lemma load_lesson_out_of_range:
  "index < 0 \<or> int (length (lessons a)) \<le> index \<Longrightarrow> load_lesson_by_index index a = a"
  by (auto simp: load_lesson_by_index_def)

lemma load_lesson_in_range:
  "0 \<le> index \<Longrightarrow> index < int (length (lessons a)) \<Longrightarrow>
   load_lesson_by_index index a =
     a\<lparr>current_lesson_index := index,
       selected_lesson := Some (lessons a ! nat index),
       lesson_text_label := content (lessons a ! nat index),
       typed_text := [],
       user_started_typing := False,
       start_time := None,
       tags := []\<rparr>"
  by (simp add: load_lesson_by_index_def)

lemma load_lesson_lessons: "lessons (load_lesson_by_index index a) = lessons a"
  by (simp add: load_lesson_by_index_def)

lemma load_lesson_index_bounds:
  "0 \<le> current_lesson_index a \<and> current_lesson_index a < int (length (lessons a)) \<Longrightarrow>
   0 \<le> current_lesson_index (load_lesson_by_index index a)
   \<and> current_lesson_index (load_lesson_by_index index a) < int (length (lessons a))"
  by (auto simp: load_lesson_by_index_def)

text \<open>
  Claim C6, as the code has it. With one lesson in the catalog, the indices \<open>1\<close> and
  \<open>-1\<close> are out of range; loading them returns without an error and leaves the
  application as it was.
\<close>

theorem load_lesson_by_index_counterexample:
  "length (lessons startup_app) = 1
   \<and> load_lesson_by_index 1 startup_app = startup_app
   \<and> load_lesson_by_index (- 1) startup_app = startup_app"
  by (simp add: load_lesson_by_index_def startup_app_def)

text \<open>
  Claim C6, amended. For every index outside \<open>[0, count)\<close> of the loaded catalog, loading
  the lesson at that index does nothing: no error is raised and the application is
  unchanged. For every index within \<open>[0, count)\<close> the lesson at that position becomes the
  selected lesson, its text is displayed and the typing state is reset.
\<close>

theorem load_lesson_by_index_range:
  "(index < 0 \<or> int (length (lessons a)) \<le> index \<longrightarrow> load_lesson_by_index index a = a)
   \<and> (0 \<le> index \<and> index < int (length (lessons a)) \<longrightarrow>
        selected_lesson (load_lesson_by_index index a) = Some (lessons a ! nat index)
        \<and> current_lesson_index (load_lesson_by_index index a) = index
        \<and> lesson_text_label (load_lesson_by_index index a) = content (lessons a ! nat index)
        \<and> typed_text (load_lesson_by_index index a) = []
        \<and> \<not> user_started_typing (load_lesson_by_index index a)
        \<and> start_time (load_lesson_by_index index a) = None
        \<and> lessons (load_lesson_by_index index a) = lessons a)"
  using load_lesson_out_of_range [of index a] load_lesson_in_range [of index a]
  by auto

theorem load_lesson_by_index_range_witness:
  "load_lesson_by_index 2
      (startup_app\<lparr>lessons := [placeholder, \<lparr>lesson_id = 2, title = ''Home Row'', content = ''asdf jkl''\<rparr>]\<rparr>)
     = startup_app\<lparr>lessons := [placeholder, \<lparr>lesson_id = 2, title = ''Home Row'', content = ''asdf jkl''\<rparr>]\<rparr>
   \<and> selected_lesson (load_lesson_by_index 1
        (startup_app\<lparr>lessons := [placeholder, \<lparr>lesson_id = 2, title = ''Home Row'', content = ''asdf jkl''\<rparr>]\<rparr>))
     = Some \<lparr>lesson_id = 2, title = ''Home Row'', content = ''asdf jkl''\<rparr>"
  using load_lesson_by_index_range
          [of 2 "startup_app\<lparr>lessons := [placeholder, \<lparr>lesson_id = 2, title = ''Home Row'', content = ''asdf jkl''\<rparr>]\<rparr>"]
        load_lesson_by_index_range
          [of 1 "startup_app\<lparr>lessons := [placeholder, \<lparr>lesson_id = 2, title = ''Home Row'', content = ''asdf jkl''\<rparr>]\<rparr>"]
  by simp

subsection \<open>The catalog after start-up\<close>

lemma init_lessons:
  assumes "TypingApp_init LESSONS_FILE PROGRESS_FILE = Inr a"
  shows "\<exists>loaded. load_lessons LESSONS_FILE = Inr loaded
      \<and> lessons a = (if loaded = [] then [placeholder] else loaded)"
proof (cases "load_lessons LESSONS_FILE")
  case (Inl e)
  then show ?thesis using assms by (simp add: TypingApp_init_def)
next
  case (Inr loaded)
  have "lessons a = lessons (projr (TypingApp_init LESSONS_FILE PROGRESS_FILE))"
    using assms by simp
  also have "\<dots> = (if loaded = [] then [placeholder] else loaded)"
    using Inr by (simp add: TypingApp_init_def load_lesson_lessons)
  finally show ?thesis using Inr by simp
qed

lemma init_nonempty:
  "TypingApp_init LESSONS_FILE PROGRESS_FILE = Inr a \<Longrightarrow> lessons a \<noteq> []"
  using init_lessons [of LESSONS_FILE PROGRESS_FILE a] by (auto split: if_splits)

lemma init_fallback:
  assumes "load_lessons LESSONS_FILE = Inr []"
  shows "TypingApp_init LESSONS_FILE PROGRESS_FILE = Inr (startup_app\<lparr>progress_file := PROGRESS_FILE\<rparr>)"
  using assms
  by (simp add: TypingApp_init_def load_lesson_by_index_def startup_app_def placeholder_def)

lemma load_lessons_empty:
  "LESSONS_FILE = None
   \<or> (\<exists>data. LESSONS_FILE = Some (Document data)
         \<and> (data ''lessons'' = None \<or> data ''lessons'' = Some []))
   \<Longrightarrow> load_lessons LESSONS_FILE = Inr []"
  by (auto simp: load_lessons_def)

lemma on_submit_idle:
  "selected_lesson a = None \<or> \<not> user_started_typing a \<Longrightarrow> on_submit now stamp a = Inr a"
  by (auto simp: on_submit_def split: option.splits)

lemma on_submit_started:
  assumes "selected_lesson a = Some l" and "user_started_typing a" and "start_time a = Some started"
  shows "on_submit now stamp a =
     (case save_progress (submitted_record now stamp a l started) (progress_file a) of
        Inl e \<Rightarrow> Inl e
      | Inr written \<Rightarrow>
          Inr (a\<lparr>progress_file := written,
                 result_windows := result_windows a
                   @ [(py_round2 (now - started), wpm (submitted_record now stamp a l started),
                       accuracy (submitted_record now stamp a l started))]\<rparr>))"
  using assms
  by (simp add: on_submit_def Let_def submitted_record_def show_results_def case_prod_beta
           split: sum.splits)

lemma on_submit_lessons:
  assumes "on_submit now stamp a = Inr a'"
  shows "lessons a' = lessons a"
proof (cases "selected_lesson a = None \<or> \<not> user_started_typing a")
  case True
  then show ?thesis using assms on_submit_idle [OF True, of now stamp] by simp
next
  case False
  then obtain l where l: "selected_lesson a = Some l" and u: "user_started_typing a" by auto
  show ?thesis
  proof (cases "start_time a")
    case None
    then show ?thesis using assms l u by (simp add: on_submit_def)
  next
    case (Some started)
    show ?thesis
      using assms unfolding on_submit_started [OF l u Some]
      by (cases "save_progress (submitted_record now stamp a l started) (progress_file a)") auto
  qed
qed

lemma close_results_lessons: "lessons (close_results_and_next a) = lessons a"
  by (simp add: close_results_and_next_def Let_def load_lesson_lessons)

text \<open>
  Claim C7. When the lesson file is absent, or holds no \<open>lessons\<close> member, or holds an
  empty list of lessons, \<^verbatim>\<open>load_lessons\<close> returns the empty list and the constructor
  replaces it by the one-element catalog of the placeholder lesson with id \<open>1\<close>, title
  \<open>''No Lessons Found''\<close> and content \<open>''Please check lessons.json''\<close>. Whenever the
  constructor succeeds the catalog is non-empty, and no handler changes the catalog, so
  the application never works on an empty catalog.
\<close>

theorem fallback_catalog:
  "(LESSONS_FILE = None
      \<or> (\<exists>data. LESSONS_FILE = Some (Document data)
            \<and> (data ''lessons'' = None \<or> data ''lessons'' = Some []))
     \<longrightarrow> load_lessons LESSONS_FILE = Inr []
         \<and> (\<exists>a. TypingApp_init LESSONS_FILE PROGRESS_FILE = Inr a
              \<and> lessons a = [\<lparr>lesson_id = 1, title = ''No Lessons Found'',
                                content = ''Please check lessons.json''\<rparr>]
              \<and> selected_lesson a = Some \<lparr>lesson_id = 1, title = ''No Lessons Found'',
                                content = ''Please check lessons.json''\<rparr>))
   \<and> (TypingApp_init LESSONS_FILE PROGRESS_FILE = Inr b \<longrightarrow> lessons b \<noteq> [])
   \<and> lessons (on_key_press now b) = lessons b
   \<and> lessons (on_text_changed b) = lessons b
   \<and> lessons (load_lesson_by_index index b) = lessons b
   \<and> lessons (close_results_and_next b) = lessons b
   \<and> (on_submit now stamp b = Inr b' \<longrightarrow> lessons b' = lessons b)"
proof -
  have "lessons (on_key_press now b) = lessons b"
    by (simp add: on_key_press_def)
  moreover have "lessons (on_text_changed b) = lessons b"
    by (simp add: on_text_changed_def split: option.splits)
  moreover have "LESSONS_FILE = None
      \<or> (\<exists>data. LESSONS_FILE = Some (Document data)
            \<and> (data ''lessons'' = None \<or> data ''lessons'' = Some []))
     \<longrightarrow> load_lessons LESSONS_FILE = Inr []
         \<and> (\<exists>a. TypingApp_init LESSONS_FILE PROGRESS_FILE = Inr a
              \<and> lessons a = [\<lparr>lesson_id = 1, title = ''No Lessons Found'',
                                content = ''Please check lessons.json''\<rparr>]
              \<and> selected_lesson a = Some \<lparr>lesson_id = 1, title = ''No Lessons Found'',
                                content = ''Please check lessons.json''\<rparr>)"
  proof
    assume h: "LESSONS_FILE = None
      \<or> (\<exists>data. LESSONS_FILE = Some (Document data)
            \<and> (data ''lessons'' = None \<or> data ''lessons'' = Some []))"
    have e: "load_lessons LESSONS_FILE = Inr []" by (rule load_lessons_empty [OF h])
    show "load_lessons LESSONS_FILE = Inr []
         \<and> (\<exists>a. TypingApp_init LESSONS_FILE PROGRESS_FILE = Inr a
              \<and> lessons a = [\<lparr>lesson_id = 1, title = ''No Lessons Found'',
                                content = ''Please check lessons.json''\<rparr>]
              \<and> selected_lesson a = Some \<lparr>lesson_id = 1, title = ''No Lessons Found'',
                                content = ''Please check lessons.json''\<rparr>)"
      using e init_fallback [OF e, of PROGRESS_FILE]
      by (simp add: startup_app_def placeholder_def)
  qed
  ultimately show ?thesis
    using init_nonempty [of LESSONS_FILE PROGRESS_FILE b] load_lesson_lessons [of index b]
      close_results_lessons [of b] on_submit_lessons [of now stamp b b']
    by blast
qed

theorem fallback_catalog_witness:
  "(\<exists>a. TypingApp_init (Some (Document Map.empty)) None = Inr a
        \<and> lessons a = [\<lparr>lesson_id = 1, title = ''No Lessons Found'',
                          content = ''Please check lessons.json''\<rparr>])
   \<and> (\<exists>a. TypingApp_init (Some (Document [''lessons'' \<mapsto> []])) None = Inr a
        \<and> lessons a = [\<lparr>lesson_id = 1, title = ''No Lessons Found'',
                          content = ''Please check lessons.json''\<rparr>])
   \<and> (\<exists>a. TypingApp_init None None = Inr a
        \<and> lessons a = [\<lparr>lesson_id = 1, title = ''No Lessons Found'',
                          content = ''Please check lessons.json''\<rparr>])
   \<and> lessons startup_app \<noteq> []"
  using fallback_catalog [of "Some (Document Map.empty)" None startup_app 0 0 "[]" startup_app]
    fallback_catalog [of "Some (Document [''lessons'' \<mapsto> []])" None startup_app 0 0 "[]" startup_app]
    fallback_catalog [of None None startup_app 0 0 "[]" startup_app]
    startup_app_init
  by auto

subsection \<open>Advancing to the next lesson\<close>

text \<open>
  The current index starts at \<open>0\<close> and stays within the catalog, so the hypothesis of
  the theorem below holds in every state the application reaches.
\<close>

lemma close_results_complete:
  "int (length (lessons a)) \<le> current_lesson_index a + 1 \<Longrightarrow>
   close_results_and_next a =
     a\<lparr>result_windows := drop 1 (result_windows a),
       finished_windows := finished_windows a + 1\<rparr>"
  by (simp add: close_results_and_next_def Let_def)

lemma close_results_next:
  assumes "0 \<le> current_lesson_index a"
    and "current_lesson_index a + 1 < int (length (lessons a))"
  shows "close_results_and_next a =
     a\<lparr>result_windows := drop 1 (result_windows a),
       current_lesson_index := current_lesson_index a + 1,
       selected_lesson := Some (lessons a ! nat (current_lesson_index a + 1)),
       lesson_text_label := content (lessons a ! nat (current_lesson_index a + 1)),
       typed_text := [],
       user_started_typing := False,
       start_time := None,
       tags := []\<rparr>"
  using assms by (simp add: close_results_and_next_def Let_def load_lesson_by_index_def)

lemma init_index:
  assumes "TypingApp_init LESSONS_FILE PROGRESS_FILE = Inr a"
  shows "0 \<le> current_lesson_index a \<and> current_lesson_index a < int (length (lessons a))"
proof (cases "load_lessons LESSONS_FILE")
  case (Inl e)
  then show ?thesis using assms by (simp add: TypingApp_init_def)
next
  case (Inr loaded)
  have "current_lesson_index a = current_lesson_index (projr (TypingApp_init LESSONS_FILE PROGRESS_FILE))"
    "lessons a = lessons (projr (TypingApp_init LESSONS_FILE PROGRESS_FILE))"
    using assms by simp_all
  then show ?thesis
    using Inr by (simp add: TypingApp_init_def load_lesson_by_index_def)
qed

lemma close_results_index_bounds:
  assumes "0 \<le> current_lesson_index a \<and> current_lesson_index a < int (length (lessons a))"
  shows "0 \<le> current_lesson_index (close_results_and_next a)
     \<and> current_lesson_index (close_results_and_next a) < int (length (lessons (close_results_and_next a)))"
proof (cases "current_lesson_index a + 1 < int (length (lessons a))")
  case True
  then show ?thesis using assms close_results_next [of a] by simp
next
  case False
  then show ?thesis using assms close_results_complete [of a] by simp
qed

text \<open>
  Claim C9. For every catalog and every current index (which is never negative):
  advancing when the current index plus one reaches the number of lessons opens the window
  that announces that all lessons are complete and changes nothing else but the closed
  result window, so no new session starts and the index stays; advancing from an earlier
  index moves to the index plus one, selects that lesson and resets the typing state.
\<close>

theorem close_results_and_next_advance:
  assumes "0 \<le> current_lesson_index a"
  shows "(int (length (lessons a)) \<le> current_lesson_index a + 1 \<longrightarrow>
            close_results_and_next a =
              a\<lparr>result_windows := drop 1 (result_windows a),
                finished_windows := finished_windows a + 1\<rparr>)
       \<and> (current_lesson_index a + 1 < int (length (lessons a)) \<longrightarrow>
            current_lesson_index (close_results_and_next a) = current_lesson_index a + 1
            \<and> selected_lesson (close_results_and_next a)
                = Some (lessons a ! nat (current_lesson_index a + 1))
            \<and> typed_text (close_results_and_next a) = []
            \<and> \<not> user_started_typing (close_results_and_next a)
            \<and> start_time (close_results_and_next a) = None
            \<and> finished_windows (close_results_and_next a) = finished_windows a)"
proof (cases "current_lesson_index a + 1 < int (length (lessons a))")
  case True
  show ?thesis using True by (simp add: close_results_next [OF assms True])
next
  case False
  then have "int (length (lessons a)) \<le> current_lesson_index a + 1" by simp
  then show ?thesis using False close_results_complete [of a] by simp
qed

theorem close_results_and_next_advance_witness:
  "close_results_and_next startup_app = startup_app\<lparr>finished_windows := 1\<rparr>
   \<and> current_lesson_index (close_results_and_next
        (startup_app\<lparr>lessons := [placeholder, \<lparr>lesson_id = 2, title = ''Home Row'', content = ''asdf jkl''\<rparr>]\<rparr>)) = 1
   \<and> selected_lesson (close_results_and_next
        (startup_app\<lparr>lessons := [placeholder, \<lparr>lesson_id = 2, title = ''Home Row'', content = ''asdf jkl''\<rparr>]\<rparr>))
       = Some \<lparr>lesson_id = 2, title = ''Home Row'', content = ''asdf jkl''\<rparr>"
proof -
  have a: "0 \<le> current_lesson_index startup_app"
    by (simp add: startup_app_def)
  have b: "0 \<le> current_lesson_index
     (startup_app\<lparr>lessons := [placeholder, \<lparr>lesson_id = 2, title = ''Home Row'', content = ''asdf jkl''\<rparr>]\<rparr>)"
    by (simp add: startup_app_def)
  have "close_results_and_next startup_app = startup_app\<lparr>finished_windows := 1\<rparr>"
    using close_results_and_next_advance [OF a] by (simp add: startup_app_def)
  then show ?thesis
    using close_results_and_next_advance [OF b] by (simp add: startup_app_def)
qed

subsection \<open>The progress log\<close>

lemma save_progress_readable:
  assumes "read_progress PROGRESS_FILE = Inr data" and "data ''attempts'' = Some stored"
  shows "save_progress r PROGRESS_FILE
           = Inr (Some (Document (data(''attempts'' \<mapsto> stored @ [r]))))"
  using assms by (simp add: save_progress_def)

lemma read_progress_written: "read_progress (Some (Document data)) = Inr data"
  by (simp add: read_progress_def)

lemma save_all_appends:
  assumes "read_progress PROGRESS_FILE = Inr data" and "data ''attempts'' = Some stored"
  shows "\<exists>written data'. save_all rs PROGRESS_FILE = Inr written
            \<and> read_progress written = Inr data'
            \<and> data' ''attempts'' = Some (stored @ rs)"
  using assms
proof (induction rs arbitrary: PROGRESS_FILE data stored)
  case Nil
  then show ?case by simp
next
  case (Cons r rs)
  let ?w = "Some (Document (data(''attempts'' \<mapsto> stored @ [r])))"
  have s: "save_progress r PROGRESS_FILE = Inr ?w"
    by (rule save_progress_readable [OF Cons.prems])
  have rp: "read_progress ?w = Inr (data(''attempts'' \<mapsto> stored @ [r]))"
    by (rule read_progress_written)
  have at: "(data(''attempts'' \<mapsto> stored @ [r])) ''attempts'' = Some (stored @ [r])"
    by simp
  have "\<exists>written data'. save_all rs ?w = Inr written
            \<and> read_progress written = Inr data'
            \<and> data' ''attempts'' = Some ((stored @ [r]) @ rs)"
    by (rule Cons.IH [OF rp at])
  then show ?case by (simp add: s)
qed

lemma read_progress_empty_sink:
  "PROGRESS_FILE = None
   \<or> (\<exists>data. PROGRESS_FILE = Some (Document data) \<and> data ''attempts'' = Some [])
   \<Longrightarrow> \<exists>data. read_progress PROGRESS_FILE = Inr data \<and> data ''attempts'' = Some []"
  by (auto simp: read_progress_def)

text \<open>
  Claim C8. Starting from a progress file that is absent or holds an empty list of
  attempts, saving the records \<open>rs\<close> one after the other succeeds and leaves a file whose
  attempts are exactly \<open>rs\<close>, in the order of the calls. Every single call on a readable
  log keeps the stored records as they are and puts the new record after them, and so
  does every sequence of calls.
\<close>

theorem save_progress_appends_in_order:
  "(PROGRESS_FILE = None
      \<or> (\<exists>data. PROGRESS_FILE = Some (Document data) \<and> data ''attempts'' = Some [])
     \<longrightarrow> (\<exists>written data'. save_all rs PROGRESS_FILE = Inr written
            \<and> read_progress written = Inr data'
            \<and> data' ''attempts'' = Some rs))
   \<and> (read_progress PROGRESS_FILE = Inr data \<and> data ''attempts'' = Some stored
     \<longrightarrow> save_progress r PROGRESS_FILE
           = Inr (Some (Document (data(''attempts'' \<mapsto> stored @ [r]))))
         \<and> (\<exists>written data'. save_all rs PROGRESS_FILE = Inr written
            \<and> read_progress written = Inr data'
            \<and> data' ''attempts'' = Some (stored @ rs)))"
proof -
  have "PROGRESS_FILE = None
      \<or> (\<exists>data. PROGRESS_FILE = Some (Document data) \<and> data ''attempts'' = Some [])
     \<longrightarrow> (\<exists>written data'. save_all rs PROGRESS_FILE = Inr written
            \<and> read_progress written = Inr data'
            \<and> data' ''attempts'' = Some rs)"
  proof
    assume "PROGRESS_FILE = None
      \<or> (\<exists>data. PROGRESS_FILE = Some (Document data) \<and> data ''attempts'' = Some [])"
    then obtain d where "read_progress PROGRESS_FILE = Inr d" and "d ''attempts'' = Some []"
      using read_progress_empty_sink by blast
    then show "\<exists>written data'. save_all rs PROGRESS_FILE = Inr written
            \<and> read_progress written = Inr data'
            \<and> data' ''attempts'' = Some rs"
      using save_all_appends [of PROGRESS_FILE d "[]" rs] by simp
  qed
  then show ?thesis
    using save_progress_readable [of PROGRESS_FILE data stored r]
      save_all_appends [of PROGRESS_FILE data stored rs]
    by blast
qed

theorem save_progress_appends_in_order_witness:
  "\<exists>written data'.
      save_all [\<lparr>user = ''ann'', lessonId = 1, lessonTitle = ''Home Row'', timestamp = ''t1'',
                  wpm = 30, accuracy = 95\<rparr>,
                \<lparr>user = ''bob'', lessonId = 2, lessonTitle = ''Top Row'', timestamp = ''t2'',
                  wpm = 41, accuracy = 100\<rparr>] None = Inr written
      \<and> read_progress written = Inr data'
      \<and> data' ''attempts'' =
          Some [\<lparr>user = ''ann'', lessonId = 1, lessonTitle = ''Home Row'', timestamp = ''t1'',
                  wpm = 30, accuracy = 95\<rparr>,
                \<lparr>user = ''bob'', lessonId = 2, lessonTitle = ''Top Row'', timestamp = ''t2'',
                  wpm = 41, accuracy = 100\<rparr>]"
  using save_progress_appends_in_order
    [where PROGRESS_FILE = None
       and rs = "[\<lparr>user = ''ann'', lessonId = 1, lessonTitle = ''Home Row'', timestamp = ''t1'',
                  wpm = 30, accuracy = 95\<rparr>,
                \<lparr>user = ''bob'', lessonId = 2, lessonTitle = ''Top Row'', timestamp = ''t2'',
                  wpm = 41, accuracy = 100\<rparr>]"]
  by blast

subsection \<open>Files that are not JSON\<close>



subsection \<open>Submitting\<close>

text \<open>
  A submit in a started session appends its record to a readable log and opens a result
  window. It leaves \<open>user_started_typing\<close> and \<open>start_time\<close> as they are, so the next
  submit finds the session started as well.
\<close>

lemma attempts_logged_written:
  "attempts_logged (a\<lparr>progress_file := Some (Document data), result_windows := ws\<rparr>)
     = (case data ''attempts'' of None \<Rightarrow> [] | Some attempts \<Rightarrow> attempts)"
  by (simp add: attempts_logged_def read_progress_def)

lemma submitted_record_same_inputs:
  "username_entry b = username_entry a \<Longrightarrow> typed_text b = typed_text a \<Longrightarrow>
   submitted_record now stamp b l started = submitted_record now stamp a l started"
  by (simp add: submitted_record_def)

lemma on_submit_appends:
  assumes "selected_lesson a = Some l" and "user_started_typing a" and "start_time a = Some started"
    and "read_progress (progress_file a) = Inr data" and "data ''attempts'' = Some stored"
  shows "on_submit now stamp a =
     Inr (a\<lparr>progress_file :=
              Some (Document (data(''attempts'' \<mapsto>
                 stored @ [submitted_record now stamp a l started]))),
            result_windows := result_windows a
              @ [(py_round2 (now - started), wpm (submitted_record now stamp a l started),
                  accuracy (submitted_record now stamp a l started))]\<rparr>)"
  by (simp add: on_submit_started [OF assms(1,2,3)] save_progress_readable [OF assms(4,5)])

lemma submit_twice_appends:
  assumes "selected_lesson a = Some l" and "user_started_typing a" and "start_time a = Some started"
    and "read_progress (progress_file a) = Inr data" and "data ''attempts'' = Some stored"
  shows "\<exists>a1 a2. on_submit now1 stamp1 a = Inr a1 \<and> on_submit now2 stamp2 a1 = Inr a2
           \<and> submit_twice now1 stamp1 now2 stamp2 a = Inr a2
           \<and> attempts_logged a1 = stored @ [submitted_record now1 stamp1 a l started]
           \<and> attempts_logged a2 = stored @ [submitted_record now1 stamp1 a l started,
                                             submitted_record now2 stamp2 a l started]
           \<and> user_started_typing a1 \<and> user_started_typing a2"
proof -
  let ?r1 = "submitted_record now1 stamp1 a l started"
  let ?d1 = "data(''attempts'' \<mapsto> stored @ [?r1])"
  let ?a1 = "a\<lparr>progress_file := Some (Document ?d1),
            result_windows := result_windows a
              @ [(py_round2 (now1 - started), wpm ?r1, accuracy ?r1)]\<rparr>"
  let ?r2 = "submitted_record now2 stamp2 ?a1 l started"
  let ?a2 = "?a1\<lparr>progress_file := Some (Document (?d1(''attempts'' \<mapsto> (stored @ [?r1]) @ [?r2]))),
            result_windows := result_windows ?a1
              @ [(py_round2 (now2 - started), wpm ?r2, accuracy ?r2)]\<rparr>"
  have s1: "on_submit now1 stamp1 a = Inr ?a1"
    by (rule on_submit_appends [OF assms])
  have s2: "on_submit now2 stamp2 ?a1 = Inr ?a2"
    by (rule on_submit_appends) (use assms in \<open>simp_all add: read_progress_written\<close>)
  have r2: "?r2 = submitted_record now2 stamp2 a l started"
    by (rule submitted_record_same_inputs) simp_all
  have l1: "attempts_logged ?a1 = stored @ [?r1]"
    by (simp add: attempts_logged_written)
  have l2: "attempts_logged ?a2 = stored @ [?r1, submitted_record now2 stamp2 a l started]"
    by (simp only: attempts_logged_written r2) simp
  have t: "submit_twice now1 stamp1 now2 stamp2 a = Inr ?a2"
    by (simp only: submit_twice_def s1 s2 sum.case)
  have u: "user_started_typing ?a1" "user_started_typing ?a2"
    using assms(2) by simp_all
  show ?thesis
    using s1 s2 t l1 l2 u by blast
qed

lemma key_press_startup:
  "selected_lesson (on_key_press 0 startup_app) = Some placeholder"
  "user_started_typing (on_key_press 0 startup_app)"
  "start_time (on_key_press 0 startup_app) = Some 0"
  "read_progress (progress_file (on_key_press 0 startup_app)) = Inr [''attempts'' \<mapsto> []]"
  by (simp_all add: on_key_press_def startup_app_def read_progress_def)

text \<open>
  Claim C1, as the code has it. After start-up without files and one key press at time
  \<open>0\<close>, the log is empty; a submit at 60 seconds followed by a submit at 120 seconds, with
  nothing between them, leaves two records in the log, stamped \<open>t1\<close> and \<open>t2\<close>.
\<close>

theorem submit_twice_counterexample:
  "map_sum id (map timestamp \<circ> attempts_logged)
      (submit_twice 60 ''t1'' 120 ''t2'' (on_key_press 0 startup_app)) = Inr [''t1'', ''t2'']
   \<and> map_sum id (length \<circ> attempts_logged)
      (submit_twice 60 ''t1'' 120 ''t2'' (on_key_press 0 startup_app)) = Inr 2
   \<and> attempts_logged (on_key_press 0 startup_app) = []"
proof -
  obtain a2 where t: "submit_twice 60 ''t1'' 120 ''t2'' (on_key_press 0 startup_app) = Inr a2"
    and l: "attempts_logged a2 =
              [] @ [submitted_record 60 ''t1'' (on_key_press 0 startup_app) placeholder 0,
                    submitted_record 120 ''t2'' (on_key_press 0 startup_app) placeholder 0]"
    using submit_twice_appends [OF key_press_startup, of "[]" 60 "''t1''" 120 "''t2''"]
    by auto
  have "map timestamp (attempts_logged a2) = [''t1'', ''t2'']"
    by (simp add: l submitted_record_def)
  moreover have "attempts_logged (on_key_press 0 startup_app) = []"
    by (simp add: attempts_logged_def key_press_startup)
  ultimately show ?thesis
    by (simp add: t l)
qed

text \<open>
  Claim C1, amended. For every session in which a key press has occurred and whose
  progress log is readable, submitting twice in a row with no key press and no lesson load
  between the two appends two records to the log, one for each submit: the first submit
  appends its record, and the second appends a record of its own after it. A submit
  returns without a record only when no lesson is selected or no key has been pressed
  since the lesson was loaded.
\<close>

theorem submit_twice_two_records:
  "(selected_lesson a = Some l \<and> user_started_typing a \<and> start_time a = Some started
      \<and> read_progress (progress_file a) = Inr data \<and> data ''attempts'' = Some stored
     \<longrightarrow> (\<exists>a1 a2. on_submit now1 stamp1 a = Inr a1 \<and> on_submit now2 stamp2 a1 = Inr a2
            \<and> submit_twice now1 stamp1 now2 stamp2 a = Inr a2
            \<and> attempts_logged a1 = stored @ [submitted_record now1 stamp1 a l started]
            \<and> attempts_logged a2 = stored @ [submitted_record now1 stamp1 a l started,
                                              submitted_record now2 stamp2 a l started]))
   \<and> (selected_lesson b = None \<or> \<not> user_started_typing b \<longrightarrow> on_submit now stamp b = Inr b)"
  using submit_twice_appends [of a l started data stored now1 stamp1 now2 stamp2]
    on_submit_idle [of b now stamp]
  by blast

theorem submit_twice_two_records_witness:
  "(\<exists>a1 a2. on_submit 60 ''t1'' (on_key_press 0 startup_app) = Inr a1
       \<and> on_submit 120 ''t2'' a1 = Inr a2
       \<and> length (attempts_logged a1) = 1
       \<and> length (attempts_logged a2) = 2)
   \<and> on_submit 60 ''t1'' startup_app = Inr startup_app"
proof -
  note inst = submit_twice_two_records
    [of "on_key_press 0 startup_app" placeholder 0 "[''attempts'' \<mapsto> []]" "[]"
        60 "''t1''" 120 "''t2''" startup_app 60 "''t1''"]
  have idle: "\<not> user_started_typing startup_app"
    by (simp add: startup_app_def)
  have "on_submit 60 ''t1'' startup_app = Inr startup_app"
    using inst idle by blast
  moreover have "\<exists>a1 a2. on_submit 60 ''t1'' (on_key_press 0 startup_app) = Inr a1
       \<and> on_submit 120 ''t2'' a1 = Inr a2
       \<and> length (attempts_logged a1) = 1
       \<and> length (attempts_logged a2) = 2"
  proof -
    obtain a1 a2 where "on_submit 60 ''t1'' (on_key_press 0 startup_app) = Inr a1"
      "on_submit 120 ''t2'' a1 = Inr a2"
      "attempts_logged a1 = [] @ [submitted_record 60 ''t1'' (on_key_press 0 startup_app) placeholder 0]"
      "attempts_logged a2 = [] @ [submitted_record 60 ''t1'' (on_key_press 0 startup_app) placeholder 0,
                    submitted_record 120 ''t2'' (on_key_press 0 startup_app) placeholder 0]"
      using inst key_press_startup by auto
    then show ?thesis by simp
  qed
  ultimately show ?thesis by simp
qed

end
